theory Spec2Isabelle
  imports Main "HOL-Library.Multiset" "HOL-Library.Sublist"
begin

section \<open>Braniac: a shallow embedding of \<^verbatim>\<open>Braniac.py\<close>\<close>

text \<open>
  The program is a Tkinter quiz game. Its logic is: the leaderboard file
  (\<^verbatim>\<open>save_score\<close>, \<^verbatim>\<open>show_leaderboard\<close>), the request parameters
  (\<^verbatim>\<open>fetch_questions\<close>), and the session globals driven by the button callbacks
  (\<^verbatim>\<open>start_quiz\<close>, \<^verbatim>\<open>update_question\<close>, \<^verbatim>\<open>check_answer\<close>, \<^verbatim>\<open>end_screen\<close>,
  \<^verbatim>\<open>submit_score\<close>).

  Python strings are modelled as \<^typ>\<open>string\<close>: a \<^typ>\<open>char\<close> is one code point below 256.
  The leaderboard file is modelled by its decoded text, on a platform whose line
  separator is the line feed. Python integers are \<^typ>\<open>int\<close>; the question index, which
  the program only sets to 0 and increments, is a \<^typ>\<open>nat\<close>.
\<close>

subsection \<open>Python string operations used by the program\<close>

text \<open>\<^verbatim>\<open>str.isspace\<close> on one code point below 256: TAB..CR, FS..US, space, NEL, NBSP.\<close>

definition isspace :: "char \<Rightarrow> bool" where
  "isspace c =
     (let n = (of_char c :: nat)
      in (9 \<le> n \<and> n \<le> 13) \<or> (28 \<le> n \<and> n \<le> 32) \<or> n = 133 \<or> n = 160)"

text \<open>\<^verbatim>\<open>s.strip()\<close>: leading and trailing whitespace removed.\<close>

definition strip :: "string \<Rightarrow> string" where
  "strip s = rev (dropWhile isspace (rev (dropWhile isspace s)))"

text \<open>\<^verbatim>\<open>s.split(sep)\<close> for a one-character separator: every occurrence splits, and
  the empty string gives one empty field.\<close>

fun split :: "char \<Rightarrow> string \<Rightarrow> string list" where
  "split sep [] = [[]]"
| "split sep (c # cs) =
     (if c = sep then [] # split sep cs
      else (case split sep cs of
              [] \<Rightarrow> [[c]]
            | p # ps \<Rightarrow> (c # p) # ps))"

text \<open>The decimal digits, and the whitespace \<^verbatim>\<open>int()\<close> accepts around a number: the ASCII
  whitespace TAB..CR and space, and the non-ASCII spaces NEL and NBSP, which \<^verbatim>\<open>int()\<close>
  turns into spaces before parsing. FS..US are whitespace for \<^verbatim>\<open>strip\<close> only.\<close>

definition isdigit :: "char \<Rightarrow> bool" where
  "isdigit c = (let n = (of_char c :: nat) in 48 \<le> n \<and> n \<le> 57)"

definition digit_value :: "char \<Rightarrow> nat" where
  "digit_value c = of_char c - 48"

definition int_space :: "char \<Rightarrow> bool" where
  "int_space c =
     (let n = (of_char c :: nat)
      in (9 \<le> n \<and> n \<le> 13) \<or> n = 32 \<or> n = 133 \<or> n = 160)"

fun double_underscore :: "string \<Rightarrow> bool" where
  "double_underscore (c # d # cs) =
     ((c = CHR ''_'' \<and> d = CHR ''_'') \<or> double_underscore (d # cs))"
| "double_underscore cs = False"

text \<open>The default of \<^verbatim>\<open>sys.int_max_str_digits\<close>: a longer digit string raises ValueError.\<close>

definition int_max_str_digits :: nat where
  "int_max_str_digits = 4300"

definition decimal :: "string \<Rightarrow> nat" where
  "decimal ds = foldl (\<lambda>a c. 10 * a + digit_value c) 0 ds"

text \<open>\<^verbatim>\<open>int(s)\<close> in base 10; \<open>None\<close> is ValueError. Leading whitespace, an optional
  sign, digits with single underscores between them, trailing whitespace.\<close>

definition py_int :: "string \<Rightarrow> int option" where
  "py_int s =
     (let s1 = dropWhile int_space s;
          negative = (s1 \<noteq> [] \<and> hd s1 = CHR ''-'');
          s2 = (if s1 \<noteq> [] \<and> (hd s1 = CHR ''+'' \<or> hd s1 = CHR ''-'') then tl s1 else s1);
          body = takeWhile (\<lambda>c. isdigit c \<or> c = CHR ''_'') s2;
          rest = dropWhile (\<lambda>c. isdigit c \<or> c = CHR ''_'') s2;
          ds = filter isdigit body
      in if body = [] \<or> hd body = CHR ''_'' \<or> last body = CHR ''_'' \<or> double_underscore body
            \<or> \<not> list_all int_space rest \<or> int_max_str_digits < length ds
         then None
         else Some (if negative then - int (decimal ds) else int (decimal ds)))"

text \<open>\<^verbatim>\<open>str(n)\<close> of an integer, as an f-string field formats it. (Python refuses to
  format an integer of more than \<open>int_max_str_digits\<close> digits; such integers are outside
  the model.)\<close>

definition digit_char :: "nat \<Rightarrow> char" where
  "digit_char d = char_of (48 + d)"

fun str_nat :: "nat \<Rightarrow> string" where
  "str_nat n = (if n < 10 then [digit_char n] else str_nat (n div 10) @ [digit_char (n mod 10)])"

definition str_int :: "int \<Rightarrow> string" where
  "str_int i = (if i < 0 then CHR ''-'' # str_nat (nat (- i)) else str_nat (nat i))"

subsection \<open>The leaderboard file\<close>

text \<open>The file \<^verbatim>\<open>leaderboard.txt\<close>: \<open>None\<close> while it does not exist, else its text.\<close>

type_synonym leaderboard_file = "string option"

type_synonym entry = "string \<times> int"

text \<open>\<^verbatim>\<open>save_score\<close>: mode \<^verbatim>\<open>"a"\<close> creates the file when it is missing and writes at
  the end. Failures of the file system are not modelled.\<close>

definition save_score :: "string \<Rightarrow> int \<Rightarrow> leaderboard_file \<Rightarrow> leaderboard_file" where
  "save_score name scr f =
     Some ((case f of None \<Rightarrow> [] | Some text \<Rightarrow> text) @ name @ '','' @ str_int scr @ [CHR 0x0A])"

text \<open>Reading in text mode translates \<^verbatim>\<open>\r\n\<close> and \<^verbatim>\<open>\r\<close> to \<^verbatim>\<open>\n\<close>; iterating the
  file yields the lines, each with its line feed, the last one possibly without.\<close>

fun universal_newlines :: "string \<Rightarrow> string" where
  "universal_newlines [] = []"
| "universal_newlines [c] = [if c = CHR 0x0D then CHR 0x0A else c]"
| "universal_newlines (c # d # cs) =
     (if c = CHR 0x0D \<and> d = CHR 0x0A then CHR 0x0A # universal_newlines cs
      else if c = CHR 0x0D then CHR 0x0A # universal_newlines (d # cs)
      else c # universal_newlines (d # cs))"

fun file_lines :: "string \<Rightarrow> string list" where
  "file_lines [] = []"
| "file_lines (c # cs) =
     (if c = CHR 0x0A then [c] # file_lines cs
      else (case file_lines cs of
              [] \<Rightarrow> [[c]]
            | l # ls \<Rightarrow> (c # l) # ls))"

text \<open>The body of the loop of \<^verbatim>\<open>show_leaderboard\<close> (lines 80 to 88) on one line:
  the entry it appends, if any.\<close>

definition parse_line :: "string \<Rightarrow> entry option" where
  "parse_line line0 =
     (let line = strip line0
      in if line \<noteq> [] then
           (let parts = split (CHR '','') line
            in if length parts = 2 then
                 (let player_score = (case py_int (parts ! 1) of Some n \<Rightarrow> n | None \<Rightarrow> 0)
                  in Some (parts ! 0, player_score))
               else None)
         else None)"

fun read_loop :: "string list \<Rightarrow> entry list \<Rightarrow> entry list" where
  "read_loop [] scores = scores"
| "read_loop (line # rest) scores =
     read_loop rest (case parse_line line of None \<Rightarrow> scores | Some e \<Rightarrow> scores @ [e])"

definition read_scores :: "leaderboard_file \<Rightarrow> entry list" where
  "read_scores f =
     (case f of
        None \<Rightarrow> []
      | Some text \<Rightarrow> read_loop (file_lines (universal_newlines text)) [])"

text \<open>\<^verbatim>\<open>scores.sort(key=lambda x: x[1], reverse=True)\<close>: the list is reversed, sorted
  stably in ascending order of the key, and reversed again.\<close>

definition sort_reverse :: "entry list \<Rightarrow> entry list" where
  "sort_reverse scores = rev (sort_key snd (rev scores))"

text \<open>The entries \<^verbatim>\<open>show_leaderboard\<close> displays, \<^verbatim>\<open>scores[:10]\<close> after the sort, and
  the texts of their labels.\<close>

definition top10 :: "leaderboard_file \<Rightarrow> entry list" where
  "top10 f = take 10 (sort_reverse (read_scores f))"

definition entry_label :: "nat \<Rightarrow> entry \<Rightarrow> string" where
  "entry_label i e = str_nat i @ ''. '' @ fst e @ '' - '' @ str_int (snd e)"

definition leaderboard_labels :: "leaderboard_file \<Rightarrow> string list" where
  "leaderboard_labels f =
     (let shown = top10 f
      in if shown \<noteq> [] then map (\<lambda>(i, e). entry_label i e) (zip [1 ..< Suc (length shown)] shown)
         else [''No scores yet. Be the first to play!''])"

subsection \<open>Library functions of the quiz\<close>

text \<open>\<^verbatim>\<open>html.unescape\<close> returns a string without an ampersand as it is, and otherwise
  substitutes the character references. The substitution is a parameter, \<open>charrefs\<close>.\<close>

definition unescape :: "(string \<Rightarrow> string) \<Rightarrow> string \<Rightarrow> string" where
  "unescape charrefs s = (if CHR ''&'' \<notin> set s then s else charrefs s)"

text \<open>\<^verbatim>\<open>random.shuffle\<close>: for \<open>i\<close> from the last index down to 1, swap the elements at
  \<open>i\<close> and at \<^verbatim>\<open>randbelow(i + 1)\<close>. The outcomes of the successive draws are the
  list \<open>rs\<close>, each reduced into its range; a missing draw counts as 0.\<close>

fun shuffle_loop :: "nat \<Rightarrow> nat list \<Rightarrow> 'a list \<Rightarrow> 'a list" where
  "shuffle_loop 0 rs x = x"
| "shuffle_loop (Suc i) rs x =
     (let j = (case rs of [] \<Rightarrow> 0 | r # _ \<Rightarrow> r mod (Suc (Suc i)))
      in shuffle_loop i (tl rs) (x[Suc i := x ! j, j := x ! Suc i]))"

definition shuffle :: "nat list \<Rightarrow> 'a list \<Rightarrow> 'a list" where
  "shuffle rs x = shuffle_loop (length x - 1) rs x"

subsection \<open>The globals and the widgets\<close>

datatype py_value = PyNone | PyInt int | PyStr string

type_synonym params = "string \<rightharpoonup> py_value"

definition TOPICS :: "string \<rightharpoonup> py_value" where
  "TOPICS = map_of
     [(''Mixed'', PyNone),
      (''General Knowledge'', PyInt 9),
      (''Entertainment: Music'', PyInt 12),
      (''Science: Computers'', PyInt 18),
      (''History'', PyInt 23),
      (''Sports'', PyInt 21)]"

text \<open>A question record of the API.\<close>

record question =
  question_text :: string
  correct_answer :: string
  incorrect_answers :: "string list"

text \<open>An answer button: its text, and its command, the closure
  \<^verbatim>\<open>lambda o=option: check_answer(o, html.unescape(q["correct_answer"]))\<close> with the
  option and the question it captured.\<close>

record button =
  btn_text :: string
  btn_command :: "(string \<times> question) option"

text \<open>The children of the root window: the widgets of the welcome screen, the quiz
  frame, the results frame with its score text, a leaderboard frame with its labels.\<close>

datatype widget = Welcome | QuizFrame | EndFrame string | LeaderboardFrame "string list"

text \<open>\<open>NoWidget\<close>: a method call on a widget that was destroyed (TclError) or never
  created (AttributeError on \<^verbatim>\<open>None\<close>). \<open>FetchError\<close>: whatever the HTTP call raises.\<close>

datatype error = KeyError | IndexError | NoWidget | FetchError

record state =
  TRIVIA_API_PARAMETERS :: params
  questions :: "question list"
  current_question_index :: nat
  score :: int
  selected_topic :: string
  root_children :: "widget list"
  question_label :: string
  buttons :: "button list"
  score_label :: string
  progress :: nat
  progress_counter_label :: string
  leaderboard :: leaderboard_file

text \<open>A callback returns the state it leaves behind together with the exception it
  raised, if any: an assignment to a global made before a \<^verbatim>\<open>raise\<close> stays.\<close>

type_synonym outcome = "error option \<times> state"

subsection \<open>Fetching questions\<close>

text \<open>The parameters \<^verbatim>\<open>fetch_questions\<close> passes to \<^verbatim>\<open>requests.get\<close>, for a topic of
  the catalog with category \<open>cat\<close>: the category is stored, and removed again for
  \<^verbatim>\<open>"Mixed"\<close>.\<close>

definition request_parameters :: "string \<Rightarrow> py_value \<Rightarrow> params \<Rightarrow> params" where
  "request_parameters topic cat ps =
     (let ps1 = ps(''category'' \<mapsto> cat)
      in if topic = ''Mixed'' then ps1(''category'' := None) else ps1)"

text \<open>\<open>http\<close> is the collaborator: \<^verbatim>\<open>requests.get(...).json()["results"]\<close> as a function
  of the request parameters, an error when any of it raises.\<close>

definition fetch_questions ::
    "(params \<Rightarrow> error + question list) \<Rightarrow> state \<Rightarrow> (error + question list) \<times> state" where
  "fetch_questions http st =
     (case TOPICS (selected_topic st) of
        None \<Rightarrow> (Inl KeyError, st)
      | Some cat \<Rightarrow>
          (let ps = request_parameters (selected_topic st) cat (TRIVIA_API_PARAMETERS st)
           in (http ps, st\<lparr>TRIVIA_API_PARAMETERS := ps\<rparr>)))"

subsection \<open>The screens and the callbacks\<close>

definition welcome_screen :: "state \<Rightarrow> state" where
  "welcome_screen st = st\<lparr>root_children := [Welcome]\<rparr>"

definition select_topic :: "string \<Rightarrow> state \<Rightarrow> state" where
  "select_topic topic st = st\<lparr>selected_topic := topic\<rparr>"

definition end_screen :: "state \<Rightarrow> state" where
  "end_screen st = st\<lparr>root_children := [EndFrame (''Your Final Score: '' @ str_int (score st))]\<rparr>"

text \<open>The loop \<^verbatim>\<open>for i, option in enumerate(options): buttons[i].config(...)\<close>:
  \<^verbatim>\<open>buttons[i]\<close> raises IndexError past the last button, and the buttons configured
  before stay configured.\<close>

fun configure_buttons ::
    "nat \<Rightarrow> string list \<Rightarrow> question \<Rightarrow> button list \<Rightarrow> error option \<times> button list" where
  "configure_buttons i [] q bs = (None, bs)"
| "configure_buttons i (option # rest) q bs =
     (if i < length bs
      then configure_buttons (Suc i) rest q
             (bs[i := \<lparr>btn_text = option, btn_command = Some (option, q)\<rparr>])
      else (Some IndexError, bs))"

definition update_question :: "(string \<Rightarrow> string) \<Rightarrow> nat list \<Rightarrow> state \<Rightarrow> outcome" where
  "update_question charrefs rs st =
     (if current_question_index st \<ge> length (questions st) then (None, end_screen st)
      else if QuizFrame \<notin> set (root_children st) then (Some NoWidget, st)
      else
        (let q = questions st ! current_question_index st;
             st1 = st\<lparr>question_label := unescape charrefs (question_text q)\<rparr>;
             options = shuffle rs (map (unescape charrefs) (incorrect_answers q)
                                   @ [unescape charrefs (correct_answer q)]);
             (err, bs) = configure_buttons 0 options q (buttons st1);
             st2 = st1\<lparr>buttons := bs\<rparr>
         in case err of
              Some e \<Rightarrow> (Some e, st2)
            | None \<Rightarrow>
                (None, st2\<lparr>progress := current_question_index st2 + 1,
                           progress_counter_label :=
                             ''Question '' @ str_nat (current_question_index st2 + 1)
                             @ '' of '' @ str_nat (length (questions st2))\<rparr>)))"

definition check_answer ::
    "(string \<Rightarrow> string) \<Rightarrow> nat list \<Rightarrow> string \<Rightarrow> string \<Rightarrow> state \<Rightarrow> outcome" where
  "check_answer charrefs rs selected_option correct st =
     (let st1 = (if selected_option = correct then st\<lparr>score := score st + 10\<rparr> else st)
      in if QuizFrame \<notin> set (root_children st1) then (Some NoWidget, st1)
         else
           (let st2 = st1\<lparr>score_label := ''Score: '' @ str_int (score st1)\<rparr>;
                st3 = st2\<lparr>current_question_index := current_question_index st2 + 1\<rparr>
            in update_question charrefs rs st3))"

definition start_quiz ::
    "(string \<Rightarrow> string) \<Rightarrow> (params \<Rightarrow> error + question list) \<Rightarrow> nat list \<Rightarrow> nat list \<Rightarrow>
     string \<Rightarrow> state \<Rightarrow> outcome" where
  "start_quiz charrefs http rs_questions rs_options topic st =
     (let st1 = st\<lparr>current_question_index := 0, score := 0\<rparr>;
          (response, st2) = fetch_questions http st1
      in case response of
           Inl e \<Rightarrow> (Some e, st2)
         | Inr results \<Rightarrow>
             (let st3 = st2\<lparr>questions := shuffle rs_questions results\<rparr>;
                  st4 = st3\<lparr>root_children := [QuizFrame],
                            progress := 0,
                            progress_counter_label :=
                              ''Question 0 of '' @ str_nat (length (questions st3)),
                            question_label := [],
                            buttons := replicate 4 \<lparr>btn_text = [], btn_command = None\<rparr>,
                            score_label := ''Score: '' @ str_int (score st3)\<rparr>
              in update_question charrefs rs_options st4))"

definition show_leaderboard :: "state \<Rightarrow> state" where
  "show_leaderboard st =
     st\<lparr>root_children :=
          root_children st @ [LeaderboardFrame (leaderboard_labels (leaderboard st))]\<rparr>"

definition submit_score :: "string \<Rightarrow> state \<Rightarrow> state" where
  "submit_score name st =
     (let name1 = (if strip name = [] then ''Anonymous'' else name)
      in show_leaderboard (st\<lparr>leaderboard := save_score name1 (score st) (leaderboard st)\<rparr>))"

text \<open>What pressing answer button \<open>i\<close> runs: the command of the button, if it has one.\<close>

definition press_answer :: "(string \<Rightarrow> string) \<Rightarrow> nat list \<Rightarrow> nat \<Rightarrow> state \<Rightarrow> outcome" where
  "press_answer charrefs rs i st =
     (case btn_command (buttons st ! i) of
        None \<Rightarrow> (None, st)
      | Some (option, q) \<Rightarrow>
          check_answer charrefs rs option (unescape charrefs (correct_answer q)) st)"

subsection \<open>The event loop\<close>

text \<open>The user's actions, with the outcomes of the environment each one consumes (the
  HTTP collaborator, the random draws). An action on a widget that does not exist
  cannot happen and leaves the state as it is; an exception of a callback is reported
  by Tk and the loop goes on with the state the callback left.\<close>

datatype event =
    SelectTopic string
  | StartQuiz "params \<Rightarrow> error + question list" "nat list" "nat list" string
  | Answer nat "nat list"
  | ExitQuiz
  | SubmitScore string
  | SkipLeaderboard
  | ReturnToMenu
  | Quit

definition has_end_frame :: "widget list \<Rightarrow> bool" where
  "has_end_frame ws = list_ex (\<lambda>w. case w of EndFrame _ \<Rightarrow> True | _ \<Rightarrow> False) ws"

definition has_leaderboard_frame :: "widget list \<Rightarrow> bool" where
  "has_leaderboard_frame ws = list_ex (\<lambda>w. case w of LeaderboardFrame _ \<Rightarrow> True | _ \<Rightarrow> False) ws"

fun fire :: "(string \<Rightarrow> string) \<Rightarrow> event \<Rightarrow> state \<Rightarrow> state" where
  "fire charrefs (SelectTopic topic) st =
     (if Welcome \<in> set (root_children st) \<and> topic \<in> dom TOPICS then select_topic topic st else st)"
| "fire charrefs (StartQuiz http rs_questions rs_options topic) st =
     (if Welcome \<in> set (root_children st)
      then snd (start_quiz charrefs http rs_questions rs_options topic st) else st)"
| "fire charrefs (Answer i rs) st =
     (if QuizFrame \<in> set (root_children st) \<and> i < length (buttons st)
      then snd (press_answer charrefs rs i st) else st)"
| "fire charrefs ExitQuiz st =
     (if QuizFrame \<in> set (root_children st) then welcome_screen st else st)"
| "fire charrefs (SubmitScore name) st =
     (if has_end_frame (root_children st) then submit_score name st else st)"
| "fire charrefs SkipLeaderboard st =
     (if has_end_frame (root_children st) then welcome_screen st else st)"
| "fire charrefs ReturnToMenu st =
     (if has_leaderboard_frame (root_children st) then welcome_screen st else st)"
| "fire charrefs Quit st =
     (if Welcome \<in> set (root_children st) then st\<lparr>root_children := []\<rparr> else st)"

text \<open>The module's globals as it assigns them, after the call of \<^verbatim>\<open>welcome_screen\<close>
  that ends the module; \<open>f\<close> is the leaderboard file found on disk.\<close>

definition initial_state :: "leaderboard_file \<Rightarrow> state" where
  "initial_state f =
     \<lparr>TRIVIA_API_PARAMETERS =
        [''amount'' \<mapsto> PyInt 10, ''difficulty'' \<mapsto> PyStr ''medium'', ''type'' \<mapsto> PyStr ''multiple''],
      questions = [],
      current_question_index = 0,
      score = 0,
      selected_topic = ''Mixed'',
      root_children = [Welcome],
      question_label = [],
      buttons = [],
      score_label = [],
      progress = 0,
      progress_counter_label = [],
      leaderboard = f\<rparr>"

definition run :: "(string \<Rightarrow> string) \<Rightarrow> event list \<Rightarrow> state \<Rightarrow> state" where
  "run charrefs es st = foldl (\<lambda>s e. fire charrefs e s) st es"

definition reachable :: "(string \<Rightarrow> string) \<Rightarrow> state \<Rightarrow> bool" where
  "reachable charrefs st = (\<exists>f es. st = run charrefs es (initial_state f))"

text \<open>A session played through \<^verbatim>\<open>check_answer\<close>: each submitted choice is compared
  with the decoded correct answer of the current question, as the command of a button
  of that question does.\<close>

definition submit_answer :: "(string \<Rightarrow> string) \<Rightarrow> string \<times> nat list \<Rightarrow> state \<Rightarrow> state" where
  "submit_answer charrefs c st =
     snd (check_answer charrefs (snd c) (fst c)
            (unescape charrefs (correct_answer (questions st ! current_question_index st))) st)"

definition play :: "(string \<Rightarrow> string) \<Rightarrow> (string \<times> nat list) list \<Rightarrow> state \<Rightarrow> state" where
  "play charrefs cs st = foldl (\<lambda>s c. submit_answer charrefs c s) st cs"

subsection \<open>The invariant of the session\<close>

text \<open>What holds of the globals and the widgets between two events: the index is within
  the question list; while the quiz frame exists it is the only child of the root, the
  index is that of a question, there are four answer buttons, and each button that the
  current question has an option for carries that question and its own text.\<close>

definition session_inv :: "state \<Rightarrow> bool" where
  "session_inv st \<longleftrightarrow>
     current_question_index st \<le> length (questions st)
     \<and> (QuizFrame \<in> set (root_children st) \<longrightarrow>
          root_children st = [QuizFrame]
          \<and> current_question_index st < length (questions st)
          \<and> length (buttons st) = 4
          \<and> (\<forall>i. i < 4 \<and> i \<le> length (incorrect_answers (questions st ! current_question_index st)) \<longrightarrow>
                btn_command (buttons st ! i)
                  = Some (btn_text (buttons st ! i), questions st ! current_question_index st)))"

text \<open>Two questions, a one-question session in progress, and the same session after its
  only answer, for the examples.\<close>

definition example_question :: question where
  "example_question =
     \<lparr>question_text = ''What is the capital of France?'',
      correct_answer = ''Paris'',
      incorrect_answers = [''Rome'', ''Oslo'', ''Bonn'']\<rparr>"

definition example_question2 :: question where
  "example_question2 =
     \<lparr>question_text = ''How many sides has a square?'',
      correct_answer = ''4'',
      incorrect_answers = [''3'', ''5'', ''6'']\<rparr>"

definition example_session :: state where
  "example_session =
     run (\<lambda>s. s) [StartQuiz (\<lambda>ps. Inr [example_question]) [] [] ''Mixed''] (initial_state None)"

definition finished_example :: state where
  "finished_example =
     run (\<lambda>s. s) [StartQuiz (\<lambda>ps. Inr [example_question]) [] [] ''Mixed'', Answer 2 []]
       (initial_state None)"

text \<open>The welcome screen as it stands after the topic \<open>History\<close> was selected, a quiz
  started and left through its exit button: \<^verbatim>\<open>welcome_screen\<close> has set the menu back to
  \<open>Mixed\<close>, and the global \<^verbatim>\<open>selected_topic\<close> is as the selection left it.\<close>

definition back_at_welcome_example :: state where
  "back_at_welcome_example =
     run (\<lambda>s. s)
       [SelectTopic ''History'',
        StartQuiz (\<lambda>ps. Inr [example_question]) [] [] ''History'',
        ExitQuiz]
       (initial_state None)"

text \<open>A collaborator that answers a request for category 23 with the second example
  question and any other request with the first.\<close>

definition history_server :: "params \<Rightarrow> error + question list" where
  "history_server ps =
     (if ps ''category'' = Some (PyInt 23) then Inr [example_question2] else Inr [example_question])"

section \<open>Properties of the leaderboard\<close>

subsection \<open>Auxiliary facts\<close>

lemma read_loop_map_filter: "read_loop ls acc = acc @ List.map_filter parse_line ls"
  by (induction ls arbitrary: acc) (auto simp: List.map_filter_simps split: option.splits)

lemma map_filter_append:
  "List.map_filter g (xs @ ys) = List.map_filter g xs @ List.map_filter g ys"
  by (simp add: List.map_filter_def)

lemma split_no_sep: "sep \<notin> set s \<Longrightarrow> split sep s = [s]"
  by (induction s) auto

lemma split_at_first: "sep \<notin> set a \<Longrightarrow> split sep (a @ sep # b) = a # split sep b"
  by (induction a) (auto split: list.splits)

lemma split_two_fields:
  "sep \<notin> set a \<Longrightarrow> sep \<notin> set b \<Longrightarrow> split sep (a @ sep # b) = [a, b]"
  by (simp add: split_at_first split_no_sep)

lemma strip_empty_iff: "strip s = [] \<longleftrightarrow> list_all isspace s"
proof
  assume "strip s = []"
  then have "dropWhile isspace (rev (dropWhile isspace s)) = []"
    by (simp add: strip_def)
  then have "\<forall>c \<in> set (dropWhile isspace s). isspace c"
    by (simp add: dropWhile_eq_Nil_conv)
  then have "dropWhile isspace s = []"
    by (metis hd_dropWhile list.set_sel(1))
  then show "list_all isspace s"
    by (simp add: dropWhile_eq_Nil_conv list_all_iff)
next
  assume "list_all isspace s"
  then have d: "dropWhile isspace s = []"
    by (simp add: dropWhile_eq_Nil_conv list_all_iff)
  show "strip s = []"
    unfolding strip_def d by simp
qed

lemma sort_reverse_sorted: "sorted_wrt (\<lambda>a b. snd b \<le> snd a) (sort_reverse es)"
proof -
  have "sorted (map snd (sort_key snd (rev es)))"
    by (rule sorted_sort_key)
  then have "sorted_wrt (\<lambda>a b. snd a \<le> snd b) (sort_key snd (rev es))"
    by (simp add: sorted_wrt_map)
  then show ?thesis
    unfolding sort_reverse_def by (simp add: sorted_wrt_rev)
qed

lemma sort_reverse_mset: "mset (sort_reverse es) = mset es"
  by (simp add: sort_reverse_def)

lemma sort_reverse_stable:
  "filter (\<lambda>e. snd e = v) (sort_reverse es) = filter (\<lambda>e. snd e = v) es"
  by (simp add: sort_reverse_def rev_filter sort_key_stable flip: rev_filter)

lemma sorted_wrt_take_prefix: "sorted_wrt R xs \<Longrightarrow> sorted_wrt R (take n xs)"
  by (metis append_take_drop_id sorted_wrt_append)

subsection \<open>The displayed order\<close>

text \<open>
  Claim C2. Whatever the leaderboard file holds, the entries \<^verbatim>\<open>show_leaderboard\<close>
  displays are the first 10 (all of them when there are fewer) of the entries read from
  the file, sorted by score in descending order. The sort only rearranges the entries
  read, and it is stable: for every score \<open>v\<close>, the entries of score \<open>v\<close> stand in the
  sorted list in the order in which the file has them, so the displayed entries of score
  \<open>v\<close> are the earliest ones of the file, in file order.
\<close>

theorem show_leaderboard_sorted_stable:
  "top10 f = take 10 (sort_reverse (read_scores f))
   \<and> length (top10 f) = min 10 (length (read_scores f))
   \<and> mset (sort_reverse (read_scores f)) = mset (read_scores f)
   \<and> sorted_wrt (\<lambda>a b. snd b \<le> snd a) (sort_reverse (read_scores f))
   \<and> sorted_wrt (\<lambda>a b. snd b \<le> snd a) (top10 f)
   \<and> filter (\<lambda>e. snd e = v) (sort_reverse (read_scores f))
       = filter (\<lambda>e. snd e = v) (read_scores f)
   \<and> prefix (filter (\<lambda>e. snd e = v) (top10 f)) (filter (\<lambda>e. snd e = v) (read_scores f))"
proof -
  have "prefix (filter (\<lambda>e. snd e = v) (top10 f))
          (filter (\<lambda>e. snd e = v) (sort_reverse (read_scores f)))"
    unfolding top10_def by (rule filter_mono_prefix) (rule take_is_prefix)
  then have "prefix (filter (\<lambda>e. snd e = v) (top10 f)) (filter (\<lambda>e. snd e = v) (read_scores f))"
    by (simp only: sort_reverse_stable)
  moreover have "length (top10 f) = min 10 (length (read_scores f))"
    by (simp add: top10_def sort_reverse_def)
  moreover have "sorted_wrt (\<lambda>a b. snd b \<le> snd a) (top10 f)"
    unfolding top10_def by (rule sorted_wrt_take_prefix) (rule sort_reverse_sorted)
  ultimately show ?thesis
    by (simp only: sort_reverse_sorted sort_reverse_mset sort_reverse_stable top10_def simp_thms)
qed

theorem show_leaderboard_sorted_stable_witness:
  "read_scores (Some ''Alice,30\<newline>Bob,50\<newline>Eve,30\<newline>Dan,70\<newline>'')
     = [(''Alice'', 30), (''Bob'', 50), (''Eve'', 30), (''Dan'', 70)]
   \<and> top10 (Some ''Alice,30\<newline>Bob,50\<newline>Eve,30\<newline>Dan,70\<newline>'')
     = [(''Dan'', 70), (''Bob'', 50), (''Alice'', 30), (''Eve'', 30)]
   \<and> prefix (filter (\<lambda>e. snd e = 30) (top10 (Some ''Alice,30\<newline>Bob,50\<newline>Eve,30\<newline>Dan,70\<newline>'')))
       [(''Alice'', 30), (''Eve'', 30)]"
proof -
  have r: "read_scores (Some ''Alice,30\<newline>Bob,50\<newline>Eve,30\<newline>Dan,70\<newline>'')
             = [(''Alice'', 30), (''Bob'', 50), (''Eve'', 30), (''Dan'', 70)]"
    by code_simp
  have t: "top10 (Some ''Alice,30\<newline>Bob,50\<newline>Eve,30\<newline>Dan,70\<newline>'')
             = [(''Dan'', 70), (''Bob'', 50), (''Alice'', 30), (''Eve'', 30)]"
    by code_simp
  from show_leaderboard_sorted_stable
         [of "Some ''Alice,30\<newline>Bob,50\<newline>Eve,30\<newline>Dan,70\<newline>''" 30]
  have "prefix (filter (\<lambda>e. snd e = 30) (top10 (Some ''Alice,30\<newline>Bob,50\<newline>Eve,30\<newline>Dan,70\<newline>'')))
          (filter (\<lambda>e. snd e = 30) (read_scores (Some ''Alice,30\<newline>Bob,50\<newline>Eve,30\<newline>Dan,70\<newline>'')))"
    by blast
  then have "prefix (filter (\<lambda>e. snd e = 30) (top10 (Some ''Alice,30\<newline>Bob,50\<newline>Eve,30\<newline>Dan,70\<newline>'')))
          [(''Alice'', 30), (''Eve'', 30)]"
    by (simp add: r)
  with r t show ?thesis
    by blast
qed

text \<open>
  Claim C4. From a leaderboard file that is missing or empty, saving
  \<open>(Alice, 30)\<close>, \<open>(Bob, 50)\<close> and \<open>(Eve, 30)\<close> in this order and reading the board
  gives \<open>[(Bob, 50), (Alice, 30), (Eve, 30)]\<close>, as its first three entries and as the
  whole displayed list.
\<close>

theorem leaderboard_round_trip:
  "top10 (save_score ''Eve'' 30 (save_score ''Bob'' 50 (save_score ''Alice'' 30 None)))
     = [(''Bob'', 50), (''Alice'', 30), (''Eve'', 30)]
   \<and> top10 (save_score ''Eve'' 30 (save_score ''Bob'' 50 (save_score ''Alice'' 30 (Some []))))
     = [(''Bob'', 50), (''Alice'', 30), (''Eve'', 30)]
   \<and> take 3 (sort_reverse (read_scores
        (save_score ''Eve'' 30 (save_score ''Bob'' 50 (save_score ''Alice'' 30 None)))))
     = [(''Bob'', 50), (''Alice'', 30), (''Eve'', 30)]
   \<and> leaderboard_labels
        (save_score ''Eve'' 30 (save_score ''Bob'' 50 (save_score ''Alice'' 30 None)))
     = [''1. Bob - 50'', ''2. Alice - 30'', ''3. Eve - 30'']"
  by code_simp

subsection \<open>Malformed lines\<close>

text \<open>
  Claim C7. A line which, once stripped, is \<open>name,field\<close> with no further comma, and whose
  \<open>field\<close> is not an integer for \<^verbatim>\<open>int\<close>, gives the entry \<open>(name, 0)\<close>; the read
  goes on, and the lines before and after it give the entries they give on their own.
\<close>

theorem unparsable_score_is_zero:
  assumes "strip line = name @ CHR '','' # field"
    and "CHR '','' \<notin> set name" and "CHR '','' \<notin> set field"
    and "py_int field = None"
  shows "parse_line line = Some (name, 0)
       \<and> read_loop (before @ line # after) acc
           = acc @ List.map_filter parse_line before @ (name, 0) # List.map_filter parse_line after"
proof -
  have p: "parse_line line = Some (name, 0)"
    using assms by (simp add: parse_line_def split_two_fields)
  show ?thesis
    by (simp add: p read_loop_map_filter map_filter_append List.map_filter_simps)
qed

theorem unparsable_score_is_zero_witness:
  "strip ''Carl,notanumber\<newline>'' = ''Carl'' @ CHR '','' # ''notanumber''
   \<and> CHR '','' \<notin> set ''Carl'' \<and> CHR '','' \<notin> set ''notanumber''
   \<and> py_int ''notanumber'' = None
   \<and> parse_line ''Carl,notanumber\<newline>'' = Some (''Carl'', 0)
   \<and> read_loop ([''Alice,30\<newline>''] @ ''Carl,notanumber\<newline>'' # [''Bob,50\<newline>'']) []
       = [(''Alice'', 30), (''Carl'', 0), (''Bob'', 50)]"
proof -
  have h1: "strip ''Carl,notanumber\<newline>'' = ''Carl'' @ CHR '','' # ''notanumber''"
    by code_simp
  have h2: "CHR '','' \<notin> set ''Carl''" and h3: "CHR '','' \<notin> set ''notanumber''"
    by simp_all
  have h4: "py_int ''notanumber'' = None"
    by code_simp
  have a: "List.map_filter parse_line [''Alice,30\<newline>''] = [(''Alice'', 30)]"
    by code_simp
  have b: "List.map_filter parse_line [''Bob,50\<newline>''] = [(''Bob'', 50)]"
    by code_simp
  from unparsable_score_is_zero [OF h1 h2 h3 h4, of "[''Alice,30\<newline>'']" "[''Bob,50\<newline>'']" "[]"]
  have "parse_line ''Carl,notanumber\<newline>'' = Some (''Carl'', 0)
      \<and> read_loop ([''Alice,30\<newline>''] @ ''Carl,notanumber\<newline>'' # [''Bob,50\<newline>'']) []
          = [(''Alice'', 30), (''Carl'', 0), (''Bob'', 50)]"
    by (simp only: a b append_Nil append_Cons)
  with h1 h2 h3 h4 show ?thesis
    by blast
qed

text \<open>
  Claim C10. A line that is blank once stripped, or whose stripped text does not split at
  its commas into exactly two fields, appends no entry: the entries read, and so the
  displayed ones, are those of the file without that line.
\<close>

theorem malformed_line_skipped:
  assumes "file_lines (universal_newlines text) = before @ line # after"
    and "strip line = [] \<or> length (split (CHR '','') (strip line)) \<noteq> 2"
  shows "parse_line line = None
       \<and> read_scores (Some text) = read_loop (before @ after) []
       \<and> top10 (Some text) = take 10 (sort_reverse (read_loop (before @ after) []))"
proof -
  have p: "parse_line line = None"
    using assms(2) by (auto simp: parse_line_def Let_def)
  have "read_scores (Some text) = read_loop (before @ after) []"
    by (simp add: read_scores_def assms(1) p read_loop_map_filter map_filter_append
        List.map_filter_simps)
  then show ?thesis
    by (simp add: p top10_def)
qed

theorem malformed_line_skipped_witness:
  "file_lines (universal_newlines ''Alice,30\<newline>Smith, John,40\<newline>Bob,50\<newline>'')
     = [''Alice,30\<newline>''] @ ''Smith, John,40\<newline>'' # [''Bob,50\<newline>'']
   \<and> length (split (CHR '','') (strip ''Smith, John,40\<newline>'')) = 3
   \<and> parse_line ''Smith, John,40\<newline>'' = None
   \<and> top10 (Some ''Alice,30\<newline>Smith, John,40\<newline>Bob,50\<newline>'')
       = [(''Bob'', 50), (''Alice'', 30)]"
proof -
  have h1: "file_lines (universal_newlines ''Alice,30\<newline>Smith, John,40\<newline>Bob,50\<newline>'')
              = [''Alice,30\<newline>''] @ ''Smith, John,40\<newline>'' # [''Bob,50\<newline>'']"
    by code_simp
  have l: "length (split (CHR '','') (strip ''Smith, John,40\<newline>'')) = 3"
    by code_simp
  then have h2: "strip ''Smith, John,40\<newline>'' = []
                 \<or> length (split (CHR '','') (strip ''Smith, John,40\<newline>'')) \<noteq> 2"
    by simp
  have s: "take 10 (sort_reverse (read_loop ([''Alice,30\<newline>''] @ [''Bob,50\<newline>'']) []))
             = [(''Bob'', 50), (''Alice'', 30)]"
    by code_simp
  from malformed_line_skipped [OF h1 h2]
  have "parse_line ''Smith, John,40\<newline>'' = None
      \<and> top10 (Some ''Alice,30\<newline>Smith, John,40\<newline>Bob,50\<newline>'') = [(''Bob'', 50), (''Alice'', 30)]"
    by (simp only: s simp_thms)
  with h1 l show ?thesis
    by blast
qed

subsection \<open>The stored name\<close>

text \<open>
  Claim C8. \<^verbatim>\<open>submit_score\<close> always appends one record to the leaderboard file, whatever
  the name: under the name \<open>Anonymous\<close> when the entered name is empty or all
  whitespace, and under the entered name, character for character, otherwise.
\<close>

theorem submit_score_name:
  "(list_all isspace name \<longrightarrow>
      leaderboard (submit_score name st)
        = Some ((case leaderboard st of None \<Rightarrow> [] | Some text \<Rightarrow> text)
                @ ''Anonymous'' @ '','' @ str_int (score st) @ ''\<newline>''))
   \<and> (\<not> list_all isspace name \<longrightarrow>
      leaderboard (submit_score name st)
        = Some ((case leaderboard st of None \<Rightarrow> [] | Some text \<Rightarrow> text)
                @ name @ '','' @ str_int (score st) @ ''\<newline>''))"
  by (simp add: submit_score_def show_leaderboard_def save_score_def strip_empty_iff)

theorem submit_score_name_witness:
  "list_all isspace ''  '' \<and> \<not> list_all isspace ''Ann Lee''
   \<and> leaderboard (submit_score ''  '' (initial_state (Some ''Bob,50\<newline>'')))
       = Some ''Bob,50\<newline>Anonymous,0\<newline>''
   \<and> leaderboard (submit_score ''Ann Lee'' (initial_state None)) = Some ''Ann Lee,0\<newline>''"
proof -
  have h1: "list_all isspace ''  ''" and h2: "\<not> list_all isspace ''Ann Lee''"
    by code_simp+
  have s: "str_int 0 = ''0''"
    by code_simp
  have a: "leaderboard (submit_score ''  '' (initial_state (Some ''Bob,50\<newline>'')))
             = Some ''Bob,50\<newline>Anonymous,0\<newline>''"
    using submit_score_name [of "''  ''" "initial_state (Some ''Bob,50\<newline>'')"] h1
    by (simp add: initial_state_def s)
  have b: "leaderboard (submit_score ''Ann Lee'' (initial_state None)) = Some ''Ann Lee,0\<newline>''"
    using submit_score_name [of "''Ann Lee''" "initial_state None"] h2
    by (simp add: initial_state_def s)
  from h1 h2 a b show ?thesis
    by blast
qed

section \<open>Properties of the request\<close>

text \<open>
  \<^verbatim>\<open>fetch_questions\<close> reads the global \<^verbatim>\<open>selected_topic\<close>. When that is a topic of the
  catalog, the collaborator is called with the stored parameters: without a \<open>category\<close>
  key for \<open>Mixed\<close>, and for any other topic with the identifier the catalog maps it to
  as \<open>category\<close>. The other parameters are as they were.
\<close>

lemma fetch_questions_category:
  assumes "TOPICS (selected_topic st) = Some cat"
  shows "\<exists>ps. fetch_questions http st = (http ps, st\<lparr>TRIVIA_API_PARAMETERS := ps\<rparr>)
            \<and> (selected_topic st = ''Mixed'' \<longrightarrow> ''category'' \<notin> dom ps)
            \<and> (selected_topic st \<noteq> ''Mixed'' \<longrightarrow> ps ''category'' = Some cat)
            \<and> (\<forall>k. k \<noteq> ''category'' \<longrightarrow> ps k = TRIVIA_API_PARAMETERS st k)"
  using assms
  by (intro exI [of _ "request_parameters (selected_topic st) cat (TRIVIA_API_PARAMETERS st)"])
     (simp add: fetch_questions_def request_parameters_def Let_def)

lemma fetch_questions_category_example:
  "TOPICS (selected_topic (initial_state None)) = Some PyNone
   \<and> TOPICS (selected_topic (select_topic ''History'' (initial_state None))) = Some (PyInt 23)
   \<and> (\<exists>ps. fetch_questions (\<lambda>_. Inr []) (initial_state None)
             = (Inr [], (initial_state None)\<lparr>TRIVIA_API_PARAMETERS := ps\<rparr>)
           \<and> ''category'' \<notin> dom ps \<and> ps ''amount'' = Some (PyInt 10))
   \<and> (\<exists>ps. fetch_questions (\<lambda>_. Inr []) (select_topic ''History'' (initial_state None))
             = (Inr [], (select_topic ''History'' (initial_state None))\<lparr>TRIVIA_API_PARAMETERS := ps\<rparr>)
           \<and> ps ''category'' = Some (PyInt 23) \<and> ps ''amount'' = Some (PyInt 10))"
proof -
  have m: "selected_topic (initial_state None) = ''Mixed''"
    by (simp add: initial_state_def)
  have h: "selected_topic (select_topic ''History'' (initial_state None)) = ''History''"
    by (simp add: select_topic_def)
  have h1: "TOPICS (selected_topic (initial_state None)) = Some PyNone"
    by (simp add: m TOPICS_def)
  have h2: "TOPICS (selected_topic (select_topic ''History'' (initial_state None))) = Some (PyInt 23)"
    by (simp add: h TOPICS_def)
  have p1: "TRIVIA_API_PARAMETERS (initial_state None) ''amount'' = Some (PyInt 10)"
    by (simp add: initial_state_def)
  have p2: "TRIVIA_API_PARAMETERS (select_topic ''History'' (initial_state None)) ''amount''
              = Some (PyInt 10)"
    by (simp add: initial_state_def select_topic_def)
  have a: "\<exists>ps. fetch_questions (\<lambda>_. Inr []) (initial_state None)
                  = (Inr [], (initial_state None)\<lparr>TRIVIA_API_PARAMETERS := ps\<rparr>)
                \<and> ''category'' \<notin> dom ps \<and> ps ''amount'' = Some (PyInt 10)"
    using fetch_questions_category [OF h1, of "\<lambda>_. Inr []"] m p1 by auto
  have b: "\<exists>ps. fetch_questions (\<lambda>_. Inr []) (select_topic ''History'' (initial_state None))
                  = (Inr [], (select_topic ''History'' (initial_state None))\<lparr>TRIVIA_API_PARAMETERS := ps\<rparr>)
                \<and> ps ''category'' = Some (PyInt 23) \<and> ps ''amount'' = Some (PyInt 10)"
    using fetch_questions_category [OF h2, of "\<lambda>_. Inr []"] h p2 by auto
  from h1 h2 a b show ?thesis
    by blast
qed

text \<open>
  Claim C9 says that a session started with the topic \<open>Mixed\<close> sends no category. The
  code does otherwise: \<^verbatim>\<open>start_quiz\<close> never reads its argument \<open>topic\<close>, the value of
  the menu, and \<^verbatim>\<open>welcome_screen\<close> sets the menu back to \<open>Mixed\<close> without setting
  \<^verbatim>\<open>selected_topic\<close>. Back at the welcome screen after a quiz on \<open>History\<close>, the
  menu shows \<open>Mixed\<close>, the global is still \<open>History\<close>, and the quiz started with
  \<open>Mixed\<close> sends the category 23: the stored parameters hold it, and the collaborator
  that tells the requests apart answers with the question it keeps for category 23.
\<close>

theorem start_quiz_ignores_topic:
  "root_children back_at_welcome_example = [Welcome]
   \<and> selected_topic back_at_welcome_example = ''History''
   \<and> TRIVIA_API_PARAMETERS
        (fire (\<lambda>s. s) (StartQuiz history_server [] [] ''Mixed'') back_at_welcome_example)
        ''category'' = Some (PyInt 23)
   \<and> questions (fire (\<lambda>s. s) (StartQuiz history_server [] [] ''Mixed'') back_at_welcome_example)
       = [example_question2]
   \<and> questions (fire (\<lambda>s. s) (StartQuiz history_server [] [] ''Mixed'') (initial_state None))
       = [example_question]
   \<and> TRIVIA_API_PARAMETERS
        (fire (\<lambda>s. s) (StartQuiz history_server [] [] ''Mixed'') (initial_state None))
        ''category'' = None"
  by code_simp

section \<open>Properties of the session\<close>

subsection \<open>Auxiliary facts\<close>

lemma length_shuffle_loop: "length (shuffle_loop i rs x) = length x"
  by (induction i rs x rule: shuffle_loop.induct) (simp_all add: Let_def)

lemma length_shuffle: "length (shuffle rs x) = length x"
  by (simp add: shuffle_def length_shuffle_loop)

lemma configure_buttons_props:
  "configure_buttons i opts q bs = (e, bs') \<Longrightarrow>
     length bs' = length bs
     \<and> (\<forall>k < i. bs' ! k = bs ! k)
     \<and> (\<forall>k. i \<le> k \<and> k < i + length opts \<and> k < length bs \<longrightarrow>
           bs' ! k = \<lparr>btn_text = opts ! (k - i), btn_command = Some (opts ! (k - i), q)\<rparr>)"
proof (induction opts arbitrary: i bs)
  case Nil
  then show ?case by auto
next
  case (Cons option rest)
  show ?case
  proof (cases "i < length bs")
    case False
    with Cons.prems show ?thesis by auto
  next
    case True
    let ?b = "\<lparr>btn_text = option, btn_command = Some (option, q)\<rparr>"
    from Cons.prems True
    have rec: "configure_buttons (Suc i) rest q (bs[i := ?b]) = (e, bs')"
      by simp
    note ih = Cons.IH [OF rec]
    from ih have len: "length bs' = length bs"
      by simp
    from ih have low: "\<forall>k < Suc i. bs' ! k = (bs[i := ?b]) ! k"
      by blast
    from ih have high: "\<forall>k. Suc i \<le> k \<and> k < Suc i + length rest \<and> k < length bs \<longrightarrow>
           bs' ! k = \<lparr>btn_text = rest ! (k - Suc i), btn_command = Some (rest ! (k - Suc i), q)\<rparr>"
      by simp
    have a: "\<forall>k < i. bs' ! k = bs ! k"
      using low by simp
    have b: "bs' ! k = \<lparr>btn_text = (option # rest) ! (k - i),
                         btn_command = Some ((option # rest) ! (k - i), q)\<rparr>"
      if k: "i \<le> k \<and> k < i + length (option # rest) \<and> k < length bs" for k
    proof (cases "k = i")
      case True
      with low \<open>i < length bs\<close> show ?thesis by simp
    next
      case False
      with k have k': "Suc i \<le> k \<and> k < Suc i + length rest \<and> k < length bs"
        by simp
      from k' have "(option # rest) ! (k - i) = rest ! (k - Suc i)"
        by (simp add: nth_Cons')
      with high k' show ?thesis
        by simp
    qed
    from len a b show ?thesis
      by blast
  qed
qed

lemma update_question_globals:
  "questions (snd (update_question cr rs st)) = questions st"
  "current_question_index (snd (update_question cr rs st)) = current_question_index st"
  "score (snd (update_question cr rs st)) = score st"
  "leaderboard (snd (update_question cr rs st)) = leaderboard st"
  by (auto simp: update_question_def end_screen_def Let_def split: prod.splits option.splits)

lemma update_question_children:
  "root_children (snd (update_question cr rs st))
     = (if current_question_index st \<ge> length (questions st)
        then [EndFrame (''Your Final Score: '' @ str_int (score st))]
        else root_children st)"
  by (auto simp: update_question_def end_screen_def Let_def split: prod.splits option.splits)

lemma update_question_last:
  "current_question_index st \<ge> length (questions st) \<Longrightarrow>
     update_question cr rs st = (None, end_screen st)"
  by (simp add: update_question_def)

lemma update_question_buttons:
  assumes "current_question_index st < length (questions st)"
    and "QuizFrame \<in> set (root_children st)"
  shows "length (buttons (snd (update_question cr rs st))) = length (buttons st)
       \<and> (\<forall>i. i < length (buttons st)
              \<and> i \<le> length (incorrect_answers (questions st ! current_question_index st)) \<longrightarrow>
            btn_command (buttons (snd (update_question cr rs st)) ! i)
              = Some (btn_text (buttons (snd (update_question cr rs st)) ! i),
                      questions st ! current_question_index st))"
proof -
  let ?q = "questions st ! current_question_index st"
  let ?opts = "shuffle rs (map (unescape cr) (incorrect_answers ?q) @ [unescape cr (correct_answer ?q)])"
  obtain e bs where c: "configure_buttons 0 ?opts ?q (buttons st) = (e, bs)"
    by (cases "configure_buttons 0 ?opts ?q (buttons st)")
  have bs: "buttons (snd (update_question cr rs st)) = bs"
    using assms c by (auto simp: update_question_def Let_def split: option.splits)
  have lo: "length ?opts = Suc (length (incorrect_answers ?q))"
    by (simp add: length_shuffle)
  from configure_buttons_props [OF c] lo
  have len: "length bs = length (buttons st)"
    and nth: "\<forall>k. k < Suc (length (incorrect_answers ?q)) \<and> k < length (buttons st) \<longrightarrow>
           bs ! k = \<lparr>btn_text = ?opts ! k, btn_command = Some (?opts ! k, ?q)\<rparr>"
    by simp_all
  have "btn_command (bs ! i) = Some (btn_text (bs ! i), ?q)"
    if "i < length (buttons st) \<and> i \<le> length (incorrect_answers ?q)" for i
  proof -
    from that nth have "bs ! i = \<lparr>btn_text = ?opts ! i, btn_command = Some (?opts ! i, ?q)\<rparr>"
      by simp
    then show ?thesis by simp
  qed
  with len show ?thesis
    unfolding bs by blast
qed

lemma update_question_inv:
  assumes "root_children st = [QuizFrame]" and "length (buttons st) = 4"
    and "current_question_index st \<le> length (questions st)"
  shows "session_inv (snd (update_question cr rs st))"
proof (cases "current_question_index st < length (questions st)")
  case False
  then show ?thesis
    using assms by (simp add: session_inv_def update_question_globals update_question_children)
next
  case True
  have q: "QuizFrame \<in> set (root_children st)"
    using assms(1) by simp
  from update_question_buttons [OF True q, of cr rs] True assms show ?thesis
    by (simp add: session_inv_def update_question_globals update_question_children)
qed

lemma check_answer_globals:
  assumes "QuizFrame \<in> set (root_children st)"
  shows "questions (snd (check_answer cr rs sel corr st)) = questions st"
    and "current_question_index (snd (check_answer cr rs sel corr st)) = current_question_index st + 1"
    and "score (snd (check_answer cr rs sel corr st)) = (if sel = corr then score st + 10 else score st)"
    and "leaderboard (snd (check_answer cr rs sel corr st)) = leaderboard st"
    and "root_children (snd (check_answer cr rs sel corr st))
           = (if current_question_index st + 1 \<ge> length (questions st)
              then [EndFrame (''Your Final Score: ''
                      @ str_int (if sel = corr then score st + 10 else score st))]
              else root_children st)"
  using assms
  by (simp_all add: check_answer_def Let_def update_question_globals update_question_children)

lemma check_answer_inv:
  assumes "session_inv st" and "QuizFrame \<in> set (root_children st)"
  shows "session_inv (snd (check_answer cr rs sel corr st))"
proof -
  from assms have c: "root_children st = [QuizFrame]" and b: "length (buttons st) = 4"
    and i: "current_question_index st < length (questions st)"
    by (simp_all add: session_inv_def)
  show ?thesis
    using c b i by (simp add: check_answer_def Let_def update_question_inv)
qed

lemma check_answer_no_widget:
  assumes "QuizFrame \<notin> set (root_children st)"
  shows "check_answer cr rs sel corr st
           = (Some NoWidget, if sel = corr then st\<lparr>score := score st + 10\<rparr> else st)"
  using assms by (simp add: check_answer_def Let_def)

lemma fetch_questions_frame:
  "root_children (snd (fetch_questions http st)) = root_children st"
  "questions (snd (fetch_questions http st)) = questions st"
  "current_question_index (snd (fetch_questions http st)) = current_question_index st"
  "score (snd (fetch_questions http st)) = score st"
  "buttons (snd (fetch_questions http st)) = buttons st"
  "leaderboard (snd (fetch_questions http st)) = leaderboard st"
  by (simp_all add: fetch_questions_def Let_def split: option.splits)

lemma start_quiz_failed:
  assumes "fetch_questions http (st\<lparr>current_question_index := 0, score := 0\<rparr>) = (Inl e, st2)"
  shows "start_quiz cr http rsq rso topic st = (Some e, st2)"
  using assms by (simp add: start_quiz_def)

lemma start_quiz_fetched:
  assumes "fetch_questions http (st\<lparr>current_question_index := 0, score := 0\<rparr>) = (Inr results, st2)"
  shows "start_quiz cr http rsq rso topic st
           = update_question cr rso
               (st2\<lparr>questions := shuffle rsq results,
                    root_children := [QuizFrame],
                    progress := 0,
                    progress_counter_label := ''Question 0 of '' @ str_nat (length (shuffle rsq results)),
                    question_label := [],
                    buttons := replicate 4 \<lparr>btn_text = [], btn_command = None\<rparr>,
                    score_label := ''Score: '' @ str_int (score st2)\<rparr>)"
  using assms by (simp add: start_quiz_def Let_def)

lemma start_quiz_inv:
  assumes "session_inv st" and "Welcome \<in> set (root_children st)"
  shows "session_inv (snd (start_quiz cr http rsq rso topic st))"
proof -
  from assms have nq: "QuizFrame \<notin> set (root_children st)"
    by (auto simp: session_inv_def)
  let ?st1 = "st\<lparr>current_question_index := 0, score := 0\<rparr>"
  obtain r st2 where f: "fetch_questions http ?st1 = (r, st2)"
    by (cases "fetch_questions http ?st1")
  then have st2: "st2 = snd (fetch_questions http ?st1)"
    by simp
  have c2: "root_children st2 = root_children st" and i2: "current_question_index st2 = 0"
    by (simp_all add: st2 fetch_questions_frame)
  show ?thesis
  proof (cases r)
    case (Inl e)
    with f have "start_quiz cr http rsq rso topic st = (Some e, st2)"
      by (simp add: start_quiz_failed)
    moreover have "session_inv st2"
      using nq by (simp add: session_inv_def c2 i2)
    ultimately show ?thesis
      by simp
  next
    case (Inr results)
    with f have "fetch_questions http ?st1 = (Inr results, st2)"
      by simp
    note s = start_quiz_fetched [OF this, of cr rsq rso topic]
    show ?thesis
      unfolding s by (rule update_question_inv) (simp_all add: i2)
  qed
qed

lemma has_end_frame_not_quiz: "has_end_frame [QuizFrame] = False"
  by (simp add: has_end_frame_def)

lemma has_leaderboard_frame_not_quiz: "has_leaderboard_frame [QuizFrame] = False"
  by (simp add: has_leaderboard_frame_def)

lemma fire_inv:
  assumes "session_inv st"
  shows "session_inv (fire cr e st)"
proof (cases e)
  case (SelectTopic topic)
  with assms show ?thesis
    by (auto simp: session_inv_def select_topic_def)
next
  case (StartQuiz http rsq rso topic)
  with assms show ?thesis
    by (simp add: start_quiz_inv)
next
  case (Answer i rs)
  show ?thesis
  proof (cases "QuizFrame \<in> set (root_children st) \<and> i < length (buttons st)")
    case False
    with assms Answer show ?thesis by auto
  next
    case True
    with assms Answer show ?thesis
      by (auto simp: press_answer_def check_answer_inv split: option.splits)
  qed
next
  case ExitQuiz
  with assms show ?thesis
    by (auto simp: session_inv_def welcome_screen_def)
next
  case (SubmitScore name)
  with assms show ?thesis
    by (auto simp: session_inv_def submit_score_def show_leaderboard_def Let_def
        has_end_frame_not_quiz)
next
  case SkipLeaderboard
  with assms show ?thesis
    by (auto simp: session_inv_def welcome_screen_def)
next
  case ReturnToMenu
  with assms show ?thesis
    by (auto simp: session_inv_def welcome_screen_def)
next
  case Quit
  with assms show ?thesis
    by (auto simp: session_inv_def)
qed

lemma initial_inv: "session_inv (initial_state f)"
  by (simp add: session_inv_def initial_state_def)

lemma run_inv: "session_inv st \<Longrightarrow> session_inv (run cr es st)"
  unfolding run_def by (induction es arbitrary: st) (simp_all add: fire_inv)

lemma reachable_inv: "reachable cr st \<Longrightarrow> session_inv st"
  unfolding reachable_def using run_inv [OF initial_inv] by blast

lemma reachable_run: "reachable cr (run cr es (initial_state f))"
  unfolding reachable_def by blast

lemma play_Cons: "play cr (c # cs) st = play cr cs (submit_answer cr c st)"
  by (simp add: play_def)

lemma play_effect:
  assumes "current_question_index st + length cs \<le> length (questions st)"
    and "cs \<noteq> [] \<longrightarrow> QuizFrame \<in> set (root_children st)"
  shows "score (play cr cs st)
           = score st + 10 * int (length (filter (\<lambda>(c, q). fst c = unescape cr (correct_answer q))
                                    (zip cs (drop (current_question_index st) (questions st)))))
       \<and> current_question_index (play cr cs st) = current_question_index st + length cs
       \<and> questions (play cr cs st) = questions st
       \<and> (cs \<noteq> [] \<and> current_question_index st + length cs = length (questions st) \<longrightarrow>
            root_children (play cr cs st)
              = [EndFrame (''Your Final Score: '' @ str_int (score (play cr cs st)))])"
  using assms
proof (induction cs arbitrary: st)
  case Nil
  then show ?case
    by (simp add: play_def)
next
  case (Cons c cs)
  let ?i = "current_question_index st"
  let ?corr = "unescape cr (correct_answer (questions st ! ?i))"
  let ?st' = "submit_answer cr c st"
  from Cons.prems have quiz: "QuizFrame \<in> set (root_children st)"
    and lt: "?i < length (questions st)"
    by simp_all
  have st': "?st' = snd (check_answer cr (snd c) (fst c) ?corr st)"
    by (simp add: submit_answer_def)
  have q': "questions ?st' = questions st"
    and i': "current_question_index ?st' = ?i + 1"
    and s': "score ?st' = (if fst c = ?corr then score st + 10 else score st)"
    and c': "root_children ?st'
               = (if ?i + 1 \<ge> length (questions st)
                  then [EndFrame (''Your Final Score: ''
                          @ str_int (if fst c = ?corr then score st + 10 else score st))]
                  else root_children st)"
    unfolding st' by (simp_all only: check_answer_globals [OF quiz])
  have p1: "current_question_index ?st' + length cs \<le> length (questions ?st')"
    using Cons.prems(1) by (simp add: q' i')
  have p2: "cs \<noteq> [] \<longrightarrow> QuizFrame \<in> set (root_children ?st')"
  proof
    assume "cs \<noteq> []"
    with Cons.prems(1) have "?i + 1 < length (questions st)"
      by (cases cs) simp_all
    then show "QuizFrame \<in> set (root_children ?st')"
      using quiz by (simp add: c')
  qed
  note ih = Cons.IH [OF p1 p2]
  have d: "drop ?i (questions st) = questions st ! ?i # drop (Suc ?i) (questions st)"
    using lt by (simp add: Cons_nth_drop_Suc)
  have sc: "score (play cr (c # cs) st)
           = score st + 10 * int (length (filter (\<lambda>(c, q). fst c = unescape cr (correct_answer q))
                                    (zip (c # cs) (drop ?i (questions st)))))"
    using ih by (simp add: play_Cons q' i' s' d)
  have ix: "current_question_index (play cr (c # cs) st) = ?i + length (c # cs)"
    using ih by (simp add: play_Cons i')
  have qs: "questions (play cr (c # cs) st) = questions st"
    using ih by (simp add: play_Cons q')
  have en: "root_children (play cr (c # cs) st)
              = [EndFrame (''Your Final Score: '' @ str_int (score (play cr (c # cs) st)))]"
    if last: "?i + length (c # cs) = length (questions st)"
  proof (cases "cs = []")
    case True
    with last have "?i + 1 \<ge> length (questions st)"
      by simp
    then show ?thesis
      using True by (simp add: play_Cons play_def c' s')
  next
    case False
    with ih last show ?thesis
      by (simp add: play_Cons q' i')
  qed
  from sc ix qs en show ?case
    by blast
qed

subsection \<open>The score of a session\<close>

text \<open>
  Claim C1. A session is \<^verbatim>\<open>start_quiz\<close> with a successful fetch of \<open>N\<close> questions,
  followed by \<open>N\<close> submitted answers. At its end the score is 10 times the number of
  submitted choices equal to the decoded correct answer of their question: it depends on
  how many answers are correct, not on which ones. All \<open>N\<close> questions have then been
  answered and the results screen shows that score.
\<close>

theorem final_score:
  assumes "fetch_questions http (st\<lparr>current_question_index := 0, score := 0\<rparr>) = (Inr results, st2)"
    and "st0 = snd (start_quiz cr http rsq rso topic st)"
    and "length cs = length results"
  shows "questions st0 = shuffle rsq results
       \<and> score (play cr cs st0)
           = 10 * int (length (filter (\<lambda>(c, q). fst c = unescape cr (correct_answer q))
                                 (zip cs (questions st0))))
       \<and> current_question_index (play cr cs st0) = length results
       \<and> root_children (play cr cs st0)
           = [EndFrame (''Your Final Score: '' @ str_int (score (play cr cs st0)))]"
proof -
  let ?st4 = "st2\<lparr>questions := shuffle rsq results,
                  root_children := [QuizFrame],
                  progress := 0,
                  progress_counter_label := ''Question 0 of '' @ str_nat (length (shuffle rsq results)),
                  question_label := [],
                  buttons := replicate 4 \<lparr>btn_text = [], btn_command = None\<rparr>,
                  score_label := ''Score: '' @ str_int (score st2)\<rparr>"
  have st2: "st2 = snd (fetch_questions http (st\<lparr>current_question_index := 0, score := 0\<rparr>))"
    using assms(1) by simp
  have i2: "current_question_index st2 = 0" and s2: "score st2 = 0"
    by (simp_all add: st2 fetch_questions_frame)
  have st0: "st0 = snd (update_question cr rso ?st4)"
    unfolding assms(2) start_quiz_fetched [OF assms(1)] ..
  have q0: "questions st0 = shuffle rsq results"
    and i0: "current_question_index st0 = 0"
    and s0: "score st0 = 0"
    by (simp_all add: st0 update_question_globals i2 s2)
  have c0: "root_children st0
              = (if results = [] then [EndFrame (''Your Final Score: '' @ str_int 0)] else [QuizFrame])"
    by (simp add: st0 update_question_children i2 s2 length_shuffle)
  have len: "length (questions st0) = length results"
    by (simp add: q0 length_shuffle)
  have p1: "current_question_index st0 + length cs \<le> length (questions st0)"
    by (simp add: i0 len assms(3))
  have p2: "cs \<noteq> [] \<longrightarrow> QuizFrame \<in> set (root_children st0)"
    using assms(3) by (auto simp: c0)
  note e = play_effect [OF p1 p2, of cr]
  have sc: "score (play cr cs st0)
           = 10 * int (length (filter (\<lambda>(c, q). fst c = unescape cr (correct_answer q))
                                 (zip cs (questions st0))))"
    using e by (simp add: i0 s0)
  have ix: "current_question_index (play cr cs st0) = length results"
    using e by (simp add: i0 assms(3))
  have en: "root_children (play cr cs st0)
           = [EndFrame (''Your Final Score: '' @ str_int (score (play cr cs st0)))]"
  proof (cases "cs = []")
    case True
    with assms(3) have "results = []"
      by simp
    with True show ?thesis
      by (simp add: play_def c0 s0)
  next
    case False
    with e show ?thesis
      by (simp add: i0 len assms(3))
  qed
  from q0 sc ix en show ?thesis
    by blast
qed

theorem final_score_witness:
  "score (play (\<lambda>s. s) [(''4'', []), (''Rome'', [])]
       (snd (start_quiz (\<lambda>s. s) (\<lambda>ps. Inr [example_question, example_question2]) [0] [] ''Mixed''
               (initial_state None)))) = 10
   \<and> score (play (\<lambda>s. s) [(''5'', []), (''Paris'', [])]
       (snd (start_quiz (\<lambda>s. s) (\<lambda>ps. Inr [example_question, example_question2]) [0] [] ''Mixed''
               (initial_state None)))) = 10
   \<and> score (play (\<lambda>s. s) [(''4'', []), (''Paris'', [])]
       (snd (start_quiz (\<lambda>s. s) (\<lambda>ps. Inr [example_question, example_question2]) [0] [] ''Mixed''
               (initial_state None)))) = 20"
proof -
  let ?http = "\<lambda>ps :: params. (Inr [example_question, example_question2] :: error + question list)"
  let ?st1 = "(initial_state None)\<lparr>current_question_index := 0, score := 0\<rparr>"
  let ?st0 = "snd (start_quiz (\<lambda>s. s) ?http [0] [] ''Mixed'' (initial_state None))"
  have "fst (fetch_questions ?http ?st1) = Inr [example_question, example_question2]"
    by code_simp
  then have h1: "fetch_questions ?http ?st1
                   = (Inr [example_question, example_question2], snd (fetch_questions ?http ?st1))"
    by (metis prod.collapse)
  have sh: "shuffle [0] [example_question, example_question2] = [example_question2, example_question]"
    by code_simp
  have ca: "correct_answer example_question = ''Paris''"
    and cb: "correct_answer example_question2 = ''4''"
    by (simp_all add: example_question_def example_question2_def)
  have k: "score (play (\<lambda>s. s) cs ?st0)
             = 10 * int (length (filter (\<lambda>(c, q). fst c = unescape (\<lambda>s. s) (correct_answer q))
                                   (zip cs [example_question2, example_question])))"
    if "length cs = length [example_question, example_question2]" for cs
    using final_score [OF h1 refl that, of "\<lambda>s. s" "[0]" "[]" "''Mixed''"]
    by (simp only: sh)
  have a: "score (play (\<lambda>s. s) [(''4'', []), (''Rome'', [])] ?st0) = 10"
    by (subst k) (simp_all add: unescape_def ca cb)
  have b: "score (play (\<lambda>s. s) [(''5'', []), (''Paris'', [])] ?st0) = 10"
    by (subst k) (simp_all add: unescape_def ca cb)
  have c: "score (play (\<lambda>s. s) [(''4'', []), (''Paris'', [])] ?st0) = 20"
    by (subst k) (simp_all add: unescape_def ca cb)
  from a b c show ?thesis
    by blast
qed

subsection \<open>One answer\<close>

text \<open>
  Claim C3. In a reachable state with the quiz on screen the index is that of a question,
  and \<^verbatim>\<open>check_answer\<close> on a choice and the decoded correct answer of the current question
  adds 10 to the score when the two strings are equal and nothing otherwise, and advances
  the index by 1; the results screen replaces the quiz exactly when the index reaches the
  number of questions. Pressing a button the current question has an option for runs this
  comparison on the text of the button, whatever place the shuffle gave that text.
\<close>

theorem check_answer_effect:
  assumes "reachable cr st" and "QuizFrame \<in> set (root_children st)"
  shows "current_question_index st < length (questions st)
       \<and> score (snd (check_answer cr rs choice
                  (unescape cr (correct_answer (questions st ! current_question_index st))) st))
           = (if choice = unescape cr (correct_answer (questions st ! current_question_index st))
              then score st + 10 else score st)
       \<and> current_question_index (snd (check_answer cr rs choice
                  (unescape cr (correct_answer (questions st ! current_question_index st))) st))
           = current_question_index st + 1
       \<and> root_children (snd (check_answer cr rs choice
                  (unescape cr (correct_answer (questions st ! current_question_index st))) st))
           = (if current_question_index st + 1 = length (questions st)
              then [EndFrame (''Your Final Score: '' @ str_int (score (snd (check_answer cr rs choice
                      (unescape cr (correct_answer (questions st ! current_question_index st))) st))))]
              else [QuizFrame])
       \<and> (\<forall>i. i < 4 \<and> i \<le> length (incorrect_answers (questions st ! current_question_index st)) \<longrightarrow>
            fire cr (Answer i rs) st
              = snd (check_answer cr rs (btn_text (buttons st ! i))
                  (unescape cr (correct_answer (questions st ! current_question_index st))) st))"
proof -
  let ?corr = "unescape cr (correct_answer (questions st ! current_question_index st))"
  from reachable_inv [OF assms(1)] assms(2)
  have ch: "root_children st = [QuizFrame]"
    and lt: "current_question_index st < length (questions st)"
    and nb: "length (buttons st) = 4"
    and cmd: "\<forall>i. i < 4 \<and> i \<le> length (incorrect_answers (questions st ! current_question_index st)) \<longrightarrow>
                btn_command (buttons st ! i)
                  = Some (btn_text (buttons st ! i), questions st ! current_question_index st)"
    by (simp_all add: session_inv_def)
  note g = check_answer_globals [OF assms(2), of cr rs choice ?corr]
  have sc: "score (snd (check_answer cr rs choice ?corr st))
              = (if choice = ?corr then score st + 10 else score st)"
    by (rule g(3))
  have ix: "current_question_index (snd (check_answer cr rs choice ?corr st))
              = current_question_index st + 1"
    by (rule g(2))
  have rc: "root_children (snd (check_answer cr rs choice ?corr st))
              = (if current_question_index st + 1 = length (questions st)
                 then [EndFrame (''Your Final Score: ''
                         @ str_int (score (snd (check_answer cr rs choice ?corr st))))]
                 else [QuizFrame])"
    using lt by (auto simp: g(5) sc ch)
  have pr: "fire cr (Answer i rs) st = snd (check_answer cr rs (btn_text (buttons st ! i)) ?corr st)"
    if i: "i < 4 \<and> i \<le> length (incorrect_answers (questions st ! current_question_index st))" for i
  proof -
    from cmd i have "btn_command (buttons st ! i)
                       = Some (btn_text (buttons st ! i), questions st ! current_question_index st)"
      by blast
    then show ?thesis
      using i assms(2) nb by (simp add: press_answer_def)
  qed
  from lt sc ix rc pr show ?thesis
    by blast
qed

theorem check_answer_effect_witness:
  "reachable (\<lambda>s. s) example_session \<and> QuizFrame \<in> set (root_children example_session)
   \<and> map btn_text (buttons example_session) = [''Oslo'', ''Bonn'', ''Paris'', ''Rome'']
   \<and> score example_session = 0
   \<and> score (fire (\<lambda>s. s) (Answer 2 []) example_session) = 10
   \<and> score (fire (\<lambda>s. s) (Answer 3 []) example_session) = 0
   \<and> score (snd (check_answer (\<lambda>s. s) [] ''paris'' ''Paris'' example_session)) = 0
   \<and> current_question_index (fire (\<lambda>s. s) (Answer 3 []) example_session) = 1
   \<and> root_children (fire (\<lambda>s. s) (Answer 2 []) example_session)
       = [EndFrame ''Your Final Score: 10'']"
proof -
  have r: "reachable (\<lambda>s. s) example_session"
    unfolding example_session_def by (rule reachable_run)
  have q: "QuizFrame \<in> set (root_children example_session)"
    by code_simp
  have b: "map btn_text (buttons example_session) = [''Oslo'', ''Bonn'', ''Paris'', ''Rome'']"
    by code_simp
  have b2: "btn_text (buttons example_session ! 2) = ''Paris''"
    and b3: "btn_text (buttons example_session ! 3) = ''Rome''"
    by code_simp+
  have s: "score example_session = 0"
    and i: "current_question_index example_session = 0"
    and l: "length (questions example_session) = 1"
    and c: "unescape (\<lambda>s. s) (correct_answer (questions example_session ! 0)) = ''Paris''"
    and n: "length (incorrect_answers (questions example_session ! 0)) = 3"
    and t: "str_int 10 = ''10''"
    by code_simp+
  note w2 = check_answer_effect [OF r q, of "[]" "''Paris''"]
  note w3 = check_answer_effect [OF r q, of "[]" "''Rome''"]
  note w4 = check_answer_effect [OF r q, of "[]" "''paris''"]
  have f2: "fire (\<lambda>s. s) (Answer 2 []) example_session
              = snd (check_answer (\<lambda>s. s) [] ''Paris'' ''Paris'' example_session)"
    using w2 by (simp add: i c n b2)
  have f3: "fire (\<lambda>s. s) (Answer 3 []) example_session
              = snd (check_answer (\<lambda>s. s) [] ''Rome'' ''Paris'' example_session)"
    using w3 by (simp add: i c n b3)
  have s2: "score (fire (\<lambda>s. s) (Answer 2 []) example_session) = 10"
    unfolding f2 using w2 by (simp add: i c s)
  have s3: "score (fire (\<lambda>s. s) (Answer 3 []) example_session) = 0"
    unfolding f3 using w3 by (simp add: i c s)
  have s4: "score (snd (check_answer (\<lambda>s. s) [] ''paris'' ''Paris'' example_session)) = 0"
    using w4 by (simp add: i c s)
  have i3: "current_question_index (fire (\<lambda>s. s) (Answer 3 []) example_session) = 1"
    unfolding f3 using w3 by (simp add: i c)
  have e2: "root_children (fire (\<lambda>s. s) (Answer 2 []) example_session)
              = [EndFrame ''Your Final Score: 10'']"
    unfolding f2 using w2 by (simp add: i c s l t)
  from r q b s s2 s3 s4 i3 e2 show ?thesis
    by blast
qed

subsection \<open>The index\<close>

text \<open>
  Claim C5. In every reachable state the index is at most the number of questions. When
  it equals that number no quiz frame exists, so the session is over: pressing an answer
  button changes nothing. While the quiz frame exists, \<^verbatim>\<open>check_answer\<close> advances the
  index by exactly 1, and the new index is still at most the number of questions; a press
  of an answer button advances the index by 1 when the button has a command and leaves it
  otherwise.
\<close>

theorem index_invariant:
  assumes "reachable cr st"
  shows "current_question_index st \<le> length (questions st)
       \<and> (current_question_index st = length (questions st) \<longrightarrow>
            QuizFrame \<notin> set (root_children st) \<and> fire cr (Answer i rs) st = st)
       \<and> (QuizFrame \<in> set (root_children st) \<longrightarrow>
            current_question_index (snd (check_answer cr rs sel corr st))
              = current_question_index st + 1
            \<and> current_question_index (snd (check_answer cr rs sel corr st))
              \<le> length (questions (snd (check_answer cr rs sel corr st))))
       \<and> current_question_index (fire cr (Answer i rs) st)
           = (if QuizFrame \<in> set (root_children st) \<and> i < length (buttons st)
                 \<and> btn_command (buttons st ! i) \<noteq> None
              then current_question_index st + 1 else current_question_index st)"
proof -
  note inv = reachable_inv [OF assms]
  have a: "current_question_index st \<le> length (questions st)"
    using inv by (simp add: session_inv_def)
  have b: "QuizFrame \<notin> set (root_children st) \<and> fire cr (Answer i rs) st = st"
    if "current_question_index st = length (questions st)"
    using inv that by (auto simp: session_inv_def)
  have c: "current_question_index (snd (check_answer cr rs sel corr st))
             = current_question_index st + 1
           \<and> current_question_index (snd (check_answer cr rs sel corr st))
             \<le> length (questions (snd (check_answer cr rs sel corr st)))"
    if q: "QuizFrame \<in> set (root_children st)"
  proof -
    from inv q have "current_question_index st < length (questions st)"
      by (simp add: session_inv_def)
    then show ?thesis
      by (simp add: check_answer_globals [OF q])
  qed
  have d: "current_question_index (fire cr (Answer i rs) st)
           = (if QuizFrame \<in> set (root_children st) \<and> i < length (buttons st)
                 \<and> btn_command (buttons st ! i) \<noteq> None
              then current_question_index st + 1 else current_question_index st)"
  proof (cases "QuizFrame \<in> set (root_children st) \<and> i < length (buttons st)")
    case False
    then show ?thesis
      by auto
  next
    case True
    then have q: "QuizFrame \<in> set (root_children st)"
      by simp
    show ?thesis
      using True by (auto simp: press_answer_def check_answer_globals [OF q] split: option.splits)
  qed
  from a b c d show ?thesis
    by blast
qed

theorem index_invariant_witness:
  "reachable (\<lambda>s. s) example_session \<and> reachable (\<lambda>s. s) finished_example
   \<and> QuizFrame \<in> set (root_children example_session)
   \<and> current_question_index example_session = 0
   \<and> length (questions example_session) = 1
   \<and> current_question_index (fire (\<lambda>s. s) (Answer 1 []) example_session) = 1
   \<and> current_question_index finished_example = length (questions finished_example)
   \<and> QuizFrame \<notin> set (root_children finished_example)
   \<and> fire (\<lambda>s. s) (Answer 1 []) finished_example = finished_example"
proof -
  have r1: "reachable (\<lambda>s. s) example_session"
    unfolding example_session_def by (rule reachable_run)
  have r2: "reachable (\<lambda>s. s) finished_example"
    unfolding finished_example_def by (rule reachable_run)
  have q: "QuizFrame \<in> set (root_children example_session)"
    and i: "current_question_index example_session = 0"
    and l: "length (questions example_session) = 1"
    and b: "1 < length (buttons example_session)"
    and c: "btn_command (buttons example_session ! 1) \<noteq> None"
    and f: "current_question_index finished_example = length (questions finished_example)"
    by code_simp+
  have s: "current_question_index (fire (\<lambda>s. s) (Answer 1 []) example_session) = 1"
    using index_invariant [OF r1, of 1 "[]"] q i b c by simp
  have e: "QuizFrame \<notin> set (root_children finished_example)
           \<and> fire (\<lambda>s. s) (Answer 1 []) finished_example = finished_example"
    using index_invariant [OF r2, of 1 "[]"] f by blast
  from r1 r2 q i l s f e show ?thesis
    by blast
qed

subsection \<open>Answers after the end\<close>

text \<open>
  Claim C6. An answer is submitted by pressing an answer button, the only caller of
  \<^verbatim>\<open>check_answer\<close>, and the answer buttons exist only with the quiz frame. In every
  reachable state the quiz frame exists only while the index is below the number of
  questions. Once the session is finished, the index being the number of questions, there
  is no quiz frame, and a press of an answer button is a no-op: it leaves the state, and
  so the score and the index, as they are.
\<close>

theorem answer_only_while_in_progress:
  assumes "reachable cr st"
  shows "(QuizFrame \<in> set (root_children st) \<longrightarrow>
            current_question_index st < length (questions st))
       \<and> (current_question_index st = length (questions st) \<longrightarrow>
            QuizFrame \<notin> set (root_children st)
            \<and> fire cr (Answer i rs) st = st
            \<and> score (fire cr (Answer i rs) st) = score st
            \<and> current_question_index (fire cr (Answer i rs) st) = current_question_index st)"
proof -
  note inv = reachable_inv [OF assms]
  have a: "current_question_index st < length (questions st)"
    if "QuizFrame \<in> set (root_children st)"
    using inv that by (simp add: session_inv_def)
  have b: "QuizFrame \<notin> set (root_children st)
           \<and> fire cr (Answer i rs) st = st
           \<and> score (fire cr (Answer i rs) st) = score st
           \<and> current_question_index (fire cr (Answer i rs) st) = current_question_index st"
    if e: "current_question_index st = length (questions st)"
  proof -
    from inv e have nq: "QuizFrame \<notin> set (root_children st)"
      by (auto simp: session_inv_def)
    then show ?thesis
      by simp
  qed
  from a b show ?thesis
    by blast
qed

theorem answer_only_while_in_progress_witness:
  "reachable (\<lambda>s. s) example_session \<and> reachable (\<lambda>s. s) finished_example
   \<and> QuizFrame \<in> set (root_children example_session)
   \<and> current_question_index example_session < length (questions example_session)
   \<and> current_question_index finished_example = length (questions finished_example)
   \<and> QuizFrame \<notin> set (root_children finished_example)
   \<and> fire (\<lambda>s. s) (Answer 2 []) finished_example = finished_example
   \<and> score (fire (\<lambda>s. s) (Answer 2 []) finished_example) = 10
   \<and> current_question_index (fire (\<lambda>s. s) (Answer 2 []) finished_example) = 1"
proof -
  have r1: "reachable (\<lambda>s. s) example_session"
    unfolding example_session_def by (rule reachable_run)
  have r2: "reachable (\<lambda>s. s) finished_example"
    unfolding finished_example_def by (rule reachable_run)
  have q: "QuizFrame \<in> set (root_children example_session)"
    and f: "current_question_index finished_example = length (questions finished_example)"
    and i: "current_question_index finished_example = 1"
    and s: "score finished_example = 10"
    by code_simp+
  from answer_only_while_in_progress [OF r1, of 2 "[]"] q
  have p: "current_question_index example_session < length (questions example_session)"
    by blast
  from answer_only_while_in_progress [OF r2, of 2 "[]"] f
  have "QuizFrame \<notin> set (root_children finished_example)
      \<and> fire (\<lambda>s. s) (Answer 2 []) finished_example = finished_example
      \<and> score (fire (\<lambda>s. s) (Answer 2 []) finished_example) = 10
      \<and> current_question_index (fire (\<lambda>s. s) (Answer 2 []) finished_example) = 1"
    by (simp add: i s)
  with r1 r2 q p f show ?thesis
    by blast
qed

end
